theory Spec2Isabelle
  imports Complex_Main
begin

section \<open>JavaScript values used by the matcher and the aggregator\<close>

text \<open>
  Numbers. A JavaScript \<^verbatim>\<open>number\<close> is modelled as a \<^typ>\<open>real\<close>: the arithmetic of the
  source is taken exactly, so IEEE rounding, \<^verbatim>\<open>NaN\<close> and the infinities are not part of
  the model. A numeric field that may be missing (\<^verbatim>\<open>undefined\<close> or \<^verbatim>\<open>null\<close>) is a
  \<^typ>\<open>real option\<close>, with \<^term>\<open>None\<close> for the missing value.

  Strings. A string is a \<^typ>\<open>string\<close>, each \<^typ>\<open>char\<close> standing for the UTF-16 code unit
  of the same number (U+0000 to U+00FF); code units above U+00FF are not part of the model.
\<close>

definition code_unit :: "char \<Rightarrow> nat" where
  "code_unit c = of_char c"

text \<open>
  \<^verbatim>\<open>String.prototype.toLowerCase\<close> on the code units of the model: the letters A to Z and
  the upper-case letters of Latin-1 (U+00C0 to U+00DE without the multiplication sign U+00D7)
  move up by 32, which sets bit 5 of the code unit; every other code unit stays.
\<close>

definition is_upper :: "char \<Rightarrow> bool" where
  "is_upper c = (let n = code_unit c in
     (65 \<le> n \<and> n \<le> 90) \<or> (192 \<le> n \<and> n \<le> 222 \<and> n \<noteq> 215))"

fun set_bit5 :: "char \<Rightarrow> char" where
  "set_bit5 (Char b0 b1 b2 b3 b4 b5 b6 b7) = Char b0 b1 b2 b3 b4 True b6 b7"

definition lower_char :: "char \<Rightarrow> char" where
  "lower_char c = (if is_upper c then set_bit5 c else c)"

definition toLowerCase :: "string \<Rightarrow> string" where
  "toLowerCase s = map lower_char s"

text \<open>The character class \<^verbatim>\<open>[a-z0-9]\<close>.\<close>

definition is_alnum :: "char \<Rightarrow> bool" where
  "is_alnum c = (let n = code_unit c in (97 \<le> n \<and> n \<le> 122) \<or> (48 \<le> n \<and> n \<le> 57))"

text \<open>\<^verbatim>\<open>s.replace(/[^a-z0-9]/g, '')\<close>: every code unit outside the class is dropped.\<close>

definition strip_non_alnum :: "string \<Rightarrow> string" where
  "strip_non_alnum s = filter is_alnum s"

text \<open>
  The white space of \<^verbatim>\<open>\s\<close> and of \<^verbatim>\<open>trim\<close> among the code units of the model: tab, line
  feed, vertical tab, form feed, carriage return, space and the no-break space U+00A0.
\<close>

definition is_ws :: "char \<Rightarrow> bool" where
  "is_ws c = (let n = code_unit c in (9 \<le> n \<and> n \<le> 13) \<or> n = 32 \<or> n = 160)"

definition trim :: "string \<Rightarrow> string" where
  "trim s = rev (dropWhile is_ws (rev (dropWhile is_ws s)))"

text \<open>
  \<^verbatim>\<open>s1.includes(s2)\<close>: \<^verbatim>\<open>s2\<close> occurs in \<^verbatim>\<open>s1\<close> as a contiguous run; the empty string
  occurs in every string.
\<close>

fun starts_with :: "string \<Rightarrow> string \<Rightarrow> bool" where
  "starts_with s [] = True"
| "starts_with [] (y # ys) = False"
| "starts_with (x # xs) (y # ys) = (x = y \<and> starts_with xs ys)"

fun includes_str :: "string \<Rightarrow> string \<Rightarrow> bool" where
  "includes_str [] t = (t = [])"
| "includes_str (x # xs) t = (starts_with (x # xs) t \<or> includes_str xs t)"

text \<open>
  \<^verbatim>\<open>s.split(/\s+/)\<close>: the string is cut at every maximal run of white space. A run at the
  start leaves an empty first token, a run at the end an empty last token, and the empty
  string splits into the one empty token. The flag says whether the scan is inside a run;
  \<open>cur\<close> is the token read so far.
\<close>

fun split_scan :: "bool \<Rightarrow> string \<Rightarrow> string \<Rightarrow> string list" where
  "split_scan in_run cur [] = [cur]"
| "split_scan in_run cur (c # cs) =
     (if is_ws c then (if in_run then split_scan True cur cs else cur # split_scan True [] cs)
      else split_scan False (cur @ [c]) cs)"

definition split_ws :: "string \<Rightarrow> string list" where
  "split_ws s = split_scan False [] s"

text \<open>
  \<^verbatim>\<open>new Set(xs)\<close> keeps the first occurrence of every element, in insertion order; its
  \<^verbatim>\<open>size\<close> is the length of that list.
\<close>

fun new_Set :: "'a list \<Rightarrow> 'a list" where
  "new_Set [] = []"
| "new_Set (x # xs) = x # filter (\<lambda>y. y \<noteq> x) (new_Set xs)"

section \<open>Data model\<close>

record line_item =
  itemId :: string
  name :: string
  quantity :: "real option"
  unit_cost_sar :: "real option"
  client_price_sar :: "real option"
  costType :: "string option"
  description :: "string option"

datatype role = Admin | Sales | Operations

record user =
  userId :: string
  name :: string
  role :: role
  commissionRate :: "real option"

record client =
  id :: string
  companyName :: string
  primaryContactName :: string
  email :: string
  clientStatus :: string
  createdAt :: string
  lastModifiedAt :: string
  internalNotes :: "string option"
  address :: "string option"

record event =
  eventId :: string
  name :: string
  clientName :: string
  clientId :: "string option"
  clientContact :: string
  date :: string
  location :: string
  guestCount :: real
  status :: string
  paymentStatus :: string
  salespersonId :: string
  commissionRate :: "real option"
  commissionPaid :: "bool option"
  cost_tracker :: "line_item list option"
  eventType :: string

text \<open>
  The object \<^verbatim>\<open>{ ...event, revenue, cost, profit, margin }\<close>: the event's own fields and the
  four derived ones.
\<close>

record event_financials = event +
  revenue :: real
  cost :: real
  profit :: real
  margin :: real

section \<open>FinancialStudio: per-event financials\<close>

text \<open>\<^verbatim>\<open>x || 0\<close> on a number that may be missing, and \<^verbatim>\<open>xs || []\<close> on an array.\<close>

definition num_or_zero :: "real option \<Rightarrow> real" where
  "num_or_zero x = (case x of None \<Rightarrow> 0 | Some v \<Rightarrow> v)"

definition list_or_empty :: "'a list option \<Rightarrow> 'a list" where
  "list_or_empty xs = (case xs of None \<Rightarrow> [] | Some ys \<Rightarrow> ys)"

text \<open>The callback of \<^verbatim>\<open>events.map\<close> in \<^verbatim>\<open>eventFinancials\<close>; the two \<^verbatim>\<open>reduce\<close> calls are left folds.\<close>

definition withFinancials :: "event \<Rightarrow> event_financials" where
  "withFinancials event =
     (let revenue = foldl (\<lambda>sum item. sum + num_or_zero (client_price_sar item) * num_or_zero (quantity item))
                      0 (list_or_empty (cost_tracker event));
          cost = foldl (\<lambda>sum item. sum + num_or_zero (unit_cost_sar item) * num_or_zero (quantity item))
                   0 (list_or_empty (cost_tracker event));
          profit = revenue - cost;
          margin = (if revenue > 0 then (profit / revenue) * 100 else 0)
      in event.extend event (event_financials.fields revenue cost profit margin))"

definition eventFinancials :: "event list \<Rightarrow> event_financials list" where
  "eventFinancials events = map withFinancials events"

section \<open>FinancialStudio: commission summary\<close>

text \<open>\<^verbatim>\<open>a ?? b\<close>: the left operand unless it is \<^verbatim>\<open>null\<close> or \<^verbatim>\<open>undefined\<close>.\<close>

definition nullish_or :: "'a option \<Rightarrow> 'a \<Rightarrow> 'a" where
  "nullish_or a b = (case a of None \<Rightarrow> b | Some v \<Rightarrow> v)"

text \<open>
  In the definitions below the source's variables \<^verbatim>\<open>user\<close> and \<^verbatim>\<open>event\<close> are written
  \<open>usr\<close> and \<open>ev\<close>, the names themselves being fields of the result records.
\<close>

record commission_summary =
  user :: user
  totalCommission :: real
  paidCommission :: real
  pendingCommission :: real
  eventCount :: nat

text \<open>
  The body of \<^verbatim>\<open>userEvents.forEach\<close> in the summary: the two \<^verbatim>\<open>let\<close> variables
  \<^verbatim>\<open>totalCommission\<close> and \<^verbatim>\<open>paidCommission\<close> are the pair \<open>(total_c, paid_c)\<close> that is passed
  on, and \<open>rate\<close> is the constant \<^verbatim>\<open>commissionRate\<close> of the body.
  \<^verbatim>\<open>if (event.commissionPaid)\<close> holds exactly for the value \<^verbatim>\<open>true\<close>.
\<close>

definition commission_step :: "user \<Rightarrow> real \<times> real \<Rightarrow> event_financials \<Rightarrow> real \<times> real" where
  "commission_step usr acc ev =
     (case acc of (total_c, paid_c) \<Rightarrow>
        if profit ev > 0 then
          (let rate = nullish_or (event.commissionRate ev) (nullish_or (user.commissionRate usr) 0) / 100;
               amount = profit ev * rate
           in (total_c + amount, if commissionPaid ev = Some True then paid_c + amount else paid_c))
        else (total_c, paid_c))"

definition user_summary :: "event_financials list \<Rightarrow> user \<Rightarrow> commission_summary" where
  "user_summary fins usr =
     (let userEvents = filter (\<lambda>e. salespersonId e = userId usr) fins;
          (total_c, paid_c) = foldl (commission_step usr) (0, 0) userEvents
      in \<lparr>user = usr, totalCommission = total_c, paidCommission = paid_c,
          pendingCommission = total_c - paid_c, eventCount = length userEvents\<rparr>)"

definition commissionSummary :: "user list \<Rightarrow> event list \<Rightarrow> commission_summary list" where
  "commissionSummary users events =
     (let salesUsers = filter (\<lambda>u. role u = Sales) users
      in map (user_summary (eventFinancials events)) salesUsers)"

section \<open>FinancialStudio: sorting\<close>

text \<open>
  The values a sort key selects: strings, numbers and \<^verbatim>\<open>undefined\<close> (a key the object does
  not have). The types \<^verbatim>\<open>EventItem\<close> and \<^verbatim>\<open>ServiceItem\<close> are not among the sources, so the
  comparators below take the two values \<^verbatim>\<open>a[key]\<close> and \<^verbatim>\<open>b[key]\<close> as they are.
\<close>

datatype jsval = Str string | Num real | Undefined

text \<open>Strings compare by code units, a proper prefix before the longer string.\<close>

fun str_lt :: "string \<Rightarrow> string \<Rightarrow> bool" where
  "str_lt [] [] = False"
| "str_lt [] (y # ys) = True"
| "str_lt (x # xs) [] = False"
| "str_lt (x # xs) (y # ys) =
     (code_unit x < code_unit y \<or> (code_unit x = code_unit y \<and> str_lt xs ys))"

text \<open>
  \<^verbatim>\<open>a < b\<close>: two strings compare as strings; otherwise both sides become numbers and the
  comparison is false when either is \<^verbatim>\<open>NaN\<close>. The conversion of a string to a number is the
  parameter \<open>toNumber\<close>, with \<^term>\<open>None\<close> for \<^verbatim>\<open>NaN\<close>; \<^verbatim>\<open>undefined\<close> converts to \<^verbatim>\<open>NaN\<close>.
\<close>

fun to_number :: "(string \<Rightarrow> real option) \<Rightarrow> jsval \<Rightarrow> real option" where
  "to_number toNumber (Num x) = Some x"
| "to_number toNumber (Str s) = toNumber s"
| "to_number toNumber Undefined = None"

fun js_lt :: "(string \<Rightarrow> real option) \<Rightarrow> jsval \<Rightarrow> jsval \<Rightarrow> bool" where
  "js_lt toNumber (Str s) (Str t) = str_lt s t"
| "js_lt toNumber a b =
     (case (to_number toNumber a, to_number toNumber b) of
        (Some x, Some y) \<Rightarrow> x < y
      | _ \<Rightarrow> False)"

datatype direction = asc | desc

record sort_config =
  key :: string
  direction :: direction

text \<open>The comparator of \<^verbatim>\<open>sortedEvents\<close>, on \<^verbatim>\<open>a[key]\<close> and \<^verbatim>\<open>b[key]\<close>.\<close>

definition sortedEvents_compare ::
  "(string \<Rightarrow> real option) \<Rightarrow> sort_config \<Rightarrow> jsval \<Rightarrow> jsval \<Rightarrow> int" where
  "sortedEvents_compare toNumber sortConfig a_key b_key =
     (if js_lt toNumber a_key b_key then (if direction sortConfig = asc then - 1 else 1)
      else if js_lt toNumber b_key a_key then (if direction sortConfig = asc then 1 else - 1)
      else 0)"

text \<open>\<^verbatim>\<open>v || 0\<close> on a value: \<^verbatim>\<open>undefined\<close>, the empty string and 0 are falsy.\<close>

fun val_or_zero :: "jsval \<Rightarrow> jsval" where
  "val_or_zero Undefined = Num 0"
| "val_or_zero (Str s) = (if s = [] then Num 0 else Str s)"
| "val_or_zero (Num x) = Num x"

text \<open>\<^verbatim>\<open>if (typeof v === 'string') v = v.toLowerCase()\<close>.\<close>

fun lower_if_string :: "jsval \<Rightarrow> jsval" where
  "lower_if_string (Str s) = Str (toLowerCase s)"
| "lower_if_string v = v"

text \<open>The comparator of \<^verbatim>\<open>sortedServices\<close>, on \<^verbatim>\<open>a[key]\<close> and \<^verbatim>\<open>b[key]\<close>.\<close>

definition sortedServices_compare ::
  "(string \<Rightarrow> real option) \<Rightarrow> sort_config \<Rightarrow> jsval \<Rightarrow> jsval \<Rightarrow> int" where
  "sortedServices_compare toNumber sortConfig a_key b_key =
     (let valA = lower_if_string (val_or_zero a_key);
          valB = lower_if_string (val_or_zero b_key)
      in if js_lt toNumber valA valB then (if direction sortConfig = asc then - 1 else 1)
         else if js_lt toNumber valB valA then (if direction sortConfig = asc then 1 else - 1)
         else 0)"

text \<open>\<^verbatim>\<open>requestSort\<close>: the new value of the state \<^verbatim>\<open>sortConfig\<close>, which may be \<^verbatim>\<open>null\<close>.\<close>

definition requestSort :: "sort_config option \<Rightarrow> string \<Rightarrow> sort_config option" where
  "requestSort sortConfig k =
     (let dir =
            (if (case sortConfig of None \<Rightarrow> False
                 | Some c \<Rightarrow> key c = k \<and> direction c = asc)
             then desc else asc)
      in Some \<lparr>key = k, direction = dir\<rparr>)"

section \<open>ClientValidationModal: fuzzy matching\<close>

definition calculateMatchScore :: "string \<Rightarrow> string \<Rightarrow> real" where
  "calculateMatchScore target candidate =
     (let s1 = strip_non_alnum (toLowerCase target);
          s2 = strip_non_alnum (toLowerCase candidate)
      in if s1 = s2 then 1.0
         else if includes_str s1 s2 \<or> includes_str s2 s1 then 0.8
         else (let tokens1 = new_Set (split_ws (toLowerCase target));
                   tokens2 = new_Set (split_ws (toLowerCase candidate));
                   intersection = new_Set (filter (\<lambda>x. x \<in> set tokens2) tokens1)
               in if length intersection > 0
                  then 0.5 + (real (length intersection) /
                              real (max (length tokens1) (length tokens2))) * 0.4
                  else 0))"

text \<open>
  \<^verbatim>\<open>findBestMatch\<close>: the pair is the two variables \<^verbatim>\<open>bestMatch\<close> (at first \<^verbatim>\<open>undefined\<close>) and
  \<^verbatim>\<open>bestScore\<close> (at first 0) that \<^verbatim>\<open>clientList.forEach\<close> updates; \<open>nm\<close> is the parameter
  \<^verbatim>\<open>name\<close>.
\<close>

definition best_step :: "string \<Rightarrow> client option \<times> real \<Rightarrow> client \<Rightarrow> client option \<times> real" where
  "best_step nm acc c =
     (case acc of (bestMatch, bestScore) \<Rightarrow>
        (let score = calculateMatchScore nm (companyName c)
         in if score > bestScore then (Some c, score) else (bestMatch, bestScore)))"

definition findBestMatch :: "string \<Rightarrow> client list \<Rightarrow> client option \<times> real" where
  "findBestMatch nm clientList = foldl (best_step nm) (None, 0) clientList"

record unlinked_event =
  event :: event
  suggestedMatch :: "client option"
  matchScore :: real

text \<open>
  The effect that fills \<^verbatim>\<open>unlinkedEvents\<close> (the specification's \<^verbatim>\<open>findUnresolved\<close>):
  \<^verbatim>\<open>events.forEach\<close> pushes an entry for every event that has no exact match and is not
  ignored.
\<close>

definition unlinked_step ::
  "client list \<Rightarrow> string set \<Rightarrow> unlinked_event list \<Rightarrow> event \<Rightarrow> unlinked_event list" where
  "unlinked_step clients ignoredIds unlinked ev =
     (let exactMatch = find (\<lambda>c. toLowerCase (trim (companyName c)) =
                                  toLowerCase (trim (clientName ev))) clients
      in if exactMatch = None \<and> eventId ev \<notin> ignoredIds then
           (let (client, score) = findBestMatch (clientName ev) clients
            in unlinked @ [\<lparr>event = ev, suggestedMatch = client, matchScore = score\<rparr>])
         else unlinked)"

definition findUnresolved :: "event list \<Rightarrow> client list \<Rightarrow> string set \<Rightarrow> unlinked_event list" where
  "findUnresolved events clients ignoredIds = foldl (unlinked_step clients ignoredIds) [] events"

text \<open>
  The gate of the suggestion card:
  \<^verbatim>\<open>currentItem.suggestedMatch && currentItem.matchScore > 0.4\<close>.
\<close>

definition suggestion_shown :: "unlinked_event \<Rightarrow> bool" where
  "suggestion_shown currentItem = (suggestedMatch currentItem \<noteq> None \<and> matchScore currentItem > 0.4)"

section \<open>ClientValidationModal: resolution actions\<close>

text \<open>
  Modelled from the spec: the state store's \<^verbatim>\<open>updateEvent(id, partialFields)\<close>, which the
  modal receives as \<^verbatim>\<open>onUpdateEvent\<close> and which is not among the sources. The patch is applied
  to the events with that id; the other events stay as they are.
\<close>

definition updateEvent :: "event list \<Rightarrow> string \<Rightarrow> (event \<Rightarrow> event) \<Rightarrow> event list" where
  "updateEvent events eid patch = map (\<lambda>e. if eventId e = eid then patch e else e) events"

text \<open>
  Modelled from the spec: the state store's \<^verbatim>\<open>addClient(fields)\<close>, which the modal receives
  as \<^verbatim>\<open>onAddClient\<close> and which is not among the sources. The store adds one client with the
  given fields and an id of its choice to the list.
\<close>

definition addClient :: "client list \<Rightarrow> string \<Rightarrow> client \<Rightarrow> client list" where
  "addClient clients new_id clientData = clients @ [clientData\<lparr>id := new_id\<rparr>]"

text \<open>
  The three handlers, as functions from the store's state to its next state. The argument
  \<open>currentItem\<close> is \<^verbatim>\<open>unlinkedEvents[currentIndex]\<close>, \<^term>\<open>None\<close> when the index is out of range.
  The object that \<^verbatim>\<open>handleCreate\<close> passes to the store has no \<^verbatim>\<open>id\<close>: the record below
  carries the empty string there, which the store replaces. The two calls of
  \<^verbatim>\<open>new Date().toISOString()\<close> are the parameter \<open>now\<close>.
\<close>

definition handleLink ::
  "event list \<Rightarrow> client list \<Rightarrow> unlinked_event option \<Rightarrow> string \<Rightarrow> event list" where
  "handleLink events clients currentItem cn =
     (case currentItem of None \<Rightarrow> events
      | Some item \<Rightarrow>
          (let existingClient = find (\<lambda>c. companyName c = cn) clients
           in updateEvent events (eventId (event item))
                (\<lambda>e. e\<lparr>clientName := cn,
                        clientContact :=
                          (case existingClient of
                             Some c \<Rightarrow>
                               if clientContact (event item) = ''TBD'' \<or> clientContact (event item) = []
                               then primaryContactName c else clientContact (event item)
                           | None \<Rightarrow> clientContact (event item))\<rparr>)))"

definition handleCreate ::
  "client list \<Rightarrow> unlinked_event option \<Rightarrow> string \<Rightarrow> string \<Rightarrow> client list" where
  "handleCreate clients currentItem new_id now =
     (case currentItem of None \<Rightarrow> clients
      | Some item \<Rightarrow>
          addClient clients new_id
            \<lparr>id = [],
             companyName = clientName (event item),
             primaryContactName =
               (if clientContact (event item) = [] then ''Primary Contact''
                else clientContact (event item)),
             email = ''pending@update.com'',
             clientStatus = ''Active'',
             createdAt = now,
             lastModifiedAt = now,
             internalNotes = Some (''Auto-created from event: '' @ event.name (event item)),
             address = (if location (event item) \<noteq> ''TBD'' then Some (location (event item))
                        else None)\<rparr>)"

definition handleIgnore :: "string set \<Rightarrow> unlinked_event option \<Rightarrow> string set" where
  "handleIgnore ignoredIds currentItem =
     (case currentItem of None \<Rightarrow> ignoredIds
      | Some item \<Rightarrow> insert (eventId (event item)) ignoredIds)"

section \<open>Notions of the specification\<close>

text \<open>
  The amount an event adds to a salesperson's commission:
  \<^verbatim>\<open>profit * (event.commissionRate ?? user.commissionRate ?? 0) / 100\<close>.
\<close>

definition commission_amount :: "user \<Rightarrow> event_financials \<Rightarrow> real" where
  "commission_amount usr ev =
     profit ev * nullish_or (event.commissionRate ev) (nullish_or (user.commissionRate usr) 0) / 100"

text \<open>The token set of a name: the white-space separated tokens of the lower-cased name.\<close>

definition token_set :: "string \<Rightarrow> string set" where
  "token_set s = set (split_ws (toLowerCase s))"

text \<open>The score of a client for a name.\<close>

definition score_of :: "string \<Rightarrow> client \<Rightarrow> real" where
  "score_of nm c = calculateMatchScore nm (companyName c)"

text \<open>
  Normalisation is trimming followed by lower-casing; an event is resolved when some client's
  normalised company name equals the event's normalised client name.
\<close>

definition normalize :: "string \<Rightarrow> string" where
  "normalize s = toLowerCase (trim s)"

definition resolved :: "client list \<Rightarrow> event \<Rightarrow> bool" where
  "resolved clients ev = (\<exists>c \<in> set clients. normalize (companyName c) = normalize (clientName ev))"

text \<open>The entry that the reconciliation pass pushes for an unresolved event.\<close>

definition candidate :: "client list \<Rightarrow> event \<Rightarrow> unlinked_event" where
  "candidate clients ev =
     \<lparr>event = ev, suggestedMatch = fst (findBestMatch (clientName ev) clients),
      matchScore = snd (findBestMatch (clientName ev) clients)\<rparr>"

section \<open>Sample data\<close>

definition sample_item :: line_item where
  "sample_item = \<lparr>itemId = ''i1'', line_item.name = ''Stage'', quantity = Some (- 2),
     unit_cost_sar = Some 60, client_price_sar = Some 100, costType = None, description = None\<rparr>"

definition sample_event :: event where
  "sample_event = \<lparr>eventId = ''e1'', event.name = ''Gala'', clientName = ''Acme'', clientId = None,
     clientContact = ''TBD'', date = ''2024-01-01'', location = ''Riyadh'', guestCount = 100,
     status = ''Draft'', paymentStatus = ''Unpaid'', salespersonId = ''u_sales'',
     commissionRate = None, commissionPaid = None, cost_tracker = Some [], eventType = ''Gala''\<rparr>"

definition event_profit_500 :: event where
  "event_profit_500 = sample_event\<lparr>eventId := ''e2'', cost_tracker := Some
     [sample_item\<lparr>quantity := Some 1, unit_cost_sar := Some 300, client_price_sar := Some 800\<rparr>]\<rparr>"

definition event_loss_100 :: event where
  "event_loss_100 = sample_event\<lparr>eventId := ''e3'', cost_tracker := Some
     [sample_item\<lparr>quantity := Some 1, unit_cost_sar := Some 300, client_price_sar := Some 200\<rparr>]\<rparr>"

definition zenith_event :: event where
  "zenith_event = sample_event\<lparr>eventId := ''e4'', clientName := ''Zenith''\<rparr>"

definition sample_user :: user where
  "sample_user = \<lparr>userId = ''u_sales'', user.name = ''Sales Representative'', role = Sales,
     user.commissionRate = Some 10\<rparr>"

definition sample_client :: client where
  "sample_client = \<lparr>id = ''c1'', companyName = ''Acme'', primaryContactName = ''Ali'',
     email = ''ali@acme.example'', clientStatus = ''Active'', createdAt = ''2024-01-01'',
     lastModifiedAt = ''2024-01-01'', internalNotes = None, address = None\<rparr>"

section \<open>Properties of the per-event financials\<close>

lemma foldl_plus_sum_list:
  "foldl (\<lambda>sum item. sum + f item) a xs = a + (\<Sum>item\<leftarrow>xs. f item)" for a :: real
  by (induction xs arbitrary: a) (simp_all add: add.assoc)

lemma revenue_withFinancials:
  "revenue (withFinancials e) =
     (\<Sum>item\<leftarrow>list_or_empty (cost_tracker e). num_or_zero (client_price_sar item) * num_or_zero (quantity item))"
  by (simp add: withFinancials_def Let_def event.defs event_financials.defs foldl_plus_sum_list)

lemma cost_withFinancials:
  "cost (withFinancials e) =
     (\<Sum>item\<leftarrow>list_or_empty (cost_tracker e). num_or_zero (unit_cost_sar item) * num_or_zero (quantity item))"
  by (simp add: withFinancials_def Let_def event.defs event_financials.defs foldl_plus_sum_list)

lemma profit_withFinancials:
  "profit (withFinancials e) = revenue (withFinancials e) - cost (withFinancials e)"
  by (simp add: withFinancials_def Let_def event.defs event_financials.defs)

lemma margin_withFinancials:
  "margin (withFinancials e) =
     (if revenue (withFinancials e) > 0
      then (profit (withFinancials e) / revenue (withFinancials e)) * 100 else 0)"
  by (simp add: withFinancials_def Let_def event.defs event_financials.defs)

text \<open>
  C1. For every event, the derived revenue is the sum of \<^verbatim>\<open>client_price_sar * quantity\<close> and
  the derived cost the sum of \<^verbatim>\<open>unit_cost_sar * quantity\<close> over the cost tracker, a missing
  numeric field counting as 0 and a missing cost tracker as the empty list; profit is revenue
  minus cost; margin is profit / revenue * 100 when revenue is positive and 0 otherwise. The
  single line item with price 100, unit cost 60 and quantity 2 gives revenue 200, cost 120,
  profit 80 and margin 40; an empty or missing cost tracker gives margin 0.
\<close>

theorem withFinancials_formulas:
  "revenue (withFinancials e) =
     (\<Sum>item\<leftarrow>list_or_empty (cost_tracker e). num_or_zero (client_price_sar item) * num_or_zero (quantity item))
   \<and> cost (withFinancials e) =
     (\<Sum>item\<leftarrow>list_or_empty (cost_tracker e). num_or_zero (unit_cost_sar item) * num_or_zero (quantity item))
   \<and> profit (withFinancials e) = revenue (withFinancials e) - cost (withFinancials e)
   \<and> margin (withFinancials e) =
       (if revenue (withFinancials e) > 0
        then (profit (withFinancials e) / revenue (withFinancials e)) * 100 else 0)
   \<and> num_or_zero None = 0 \<and> list_or_empty None = ([] :: line_item list)
   \<and> (let w = withFinancials (e\<lparr>cost_tracker := Some
              [item\<lparr>client_price_sar := Some 100, unit_cost_sar := Some 60, quantity := Some 2\<rparr>]\<rparr>)
      in revenue w = 200 \<and> cost w = 120 \<and> profit w = 80 \<and> margin w = 40)
   \<and> margin (withFinancials (e\<lparr>cost_tracker := Some []\<rparr>)) = 0
   \<and> margin (withFinancials (e\<lparr>cost_tracker := None\<rparr>)) = 0"
proof -
  have formulas: "revenue (withFinancials e) =
       (\<Sum>item\<leftarrow>list_or_empty (cost_tracker e). num_or_zero (client_price_sar item) * num_or_zero (quantity item))"
    "cost (withFinancials e) =
       (\<Sum>item\<leftarrow>list_or_empty (cost_tracker e). num_or_zero (unit_cost_sar item) * num_or_zero (quantity item))"
    "profit (withFinancials e) = revenue (withFinancials e) - cost (withFinancials e)"
    "margin (withFinancials e) =
       (if revenue (withFinancials e) > 0
        then (profit (withFinancials e) / revenue (withFinancials e)) * 100 else 0)"
    by (rule revenue_withFinancials cost_withFinancials profit_withFinancials margin_withFinancials)+
  have coerce: "num_or_zero None = 0" "list_or_empty None = ([] :: line_item list)"
    by (simp_all add: num_or_zero_def list_or_empty_def)
  have example: "let w = withFinancials (e\<lparr>cost_tracker := Some
              [item\<lparr>client_price_sar := Some 100, unit_cost_sar := Some 60, quantity := Some 2\<rparr>]\<rparr>)
      in revenue w = 200 \<and> cost w = 120 \<and> profit w = 80 \<and> margin w = 40"
    by (simp add: Let_def margin_withFinancials profit_withFinancials revenue_withFinancials
        cost_withFinancials num_or_zero_def list_or_empty_def)
  have empty: "margin (withFinancials (e\<lparr>cost_tracker := Some []\<rparr>)) = 0"
    "margin (withFinancials (e\<lparr>cost_tracker := None\<rparr>)) = 0"
    by (simp_all add: margin_withFinancials revenue_withFinancials list_or_empty_def)
  from formulas coerce example empty show ?thesis by blast
qed

text \<open>
  C10. The record derived for an event keeps every field of the event as it was: cutting the
  four derived fields off gives the event back, for one event and for the whole list.
\<close>

theorem withFinancials_frame:
  "event.truncate (withFinancials e) = e
   \<and> map event.truncate (eventFinancials es) = es"
proof -
  have one: "event.truncate (withFinancials x) = x" for x
    by (simp add: withFinancials_def Let_def event.defs event_financials.defs)
  have "map event.truncate (eventFinancials es) = es"
    by (simp add: eventFinancials_def one map_idI)
  with one show ?thesis by simp
qed

text \<open>
  C5, as the code has it. A line item with a negative quantity \<open>q\<close> is aggregated as it
  stands: compared with the same cost tracker without the item, it adds
  \<^verbatim>\<open>client_price_sar * q\<close> to the revenue and \<^verbatim>\<open>unit_cost_sar * q\<close> to the cost.
\<close>

theorem negative_quantity_contribution:
  assumes "quantity item = Some q" and "q < 0"
  shows "revenue (withFinancials (e\<lparr>cost_tracker := Some (before @ item # after)\<rparr>)) =
           revenue (withFinancials (e\<lparr>cost_tracker := Some (before @ after)\<rparr>))
           + num_or_zero (client_price_sar item) * q
       \<and> cost (withFinancials (e\<lparr>cost_tracker := Some (before @ item # after)\<rparr>)) =
           cost (withFinancials (e\<lparr>cost_tracker := Some (before @ after)\<rparr>))
           + num_or_zero (unit_cost_sar item) * q"
  using assms
  by (simp add: revenue_withFinancials cost_withFinancials list_or_empty_def num_or_zero_def)

theorem negative_quantity_contribution_witness:
  "revenue (withFinancials (sample_event\<lparr>cost_tracker := Some ([] @ sample_item # [])\<rparr>)) =
     revenue (withFinancials (sample_event\<lparr>cost_tracker := Some ([] @ [])\<rparr>)) + 100 * (- 2)
   \<and> cost (withFinancials (sample_event\<lparr>cost_tracker := Some ([] @ sample_item # [])\<rparr>)) =
     cost (withFinancials (sample_event\<lparr>cost_tracker := Some ([] @ [])\<rparr>)) + 60 * (- 2)"
proof -
  have q: "quantity sample_item = Some (- 2)" and neg: "(- 2 :: real) < 0"
    by (simp_all add: sample_item_def)
  have p: "num_or_zero (client_price_sar sample_item) = 100"
    and c: "num_or_zero (unit_cost_sar sample_item) = 60"
    by (simp_all add: sample_item_def num_or_zero_def)
  from negative_quantity_contribution [OF q neg, where e = sample_event and before = "[]" and after = "[]"] p c
  show ?thesis by simp
qed

text \<open>
  C5, as the specification has it, fails: an event whose only line item has price 100, unit
  cost 60 and quantity \<open>-2\<close> has revenue \<open>-200\<close> and cost \<open>-120\<close>, where a quantity
  counted as 0 would give 0 for both, as the empty cost tracker does.
\<close>

theorem negative_quantity_counterexample:
  "quantity sample_item = Some (- 2)
   \<and> revenue (withFinancials (sample_event\<lparr>cost_tracker := Some [sample_item]\<rparr>)) = - 200
   \<and> cost (withFinancials (sample_event\<lparr>cost_tracker := Some [sample_item]\<rparr>)) = - 120
   \<and> revenue (withFinancials (sample_event\<lparr>cost_tracker := Some []\<rparr>)) = 0
   \<and> cost (withFinancials (sample_event\<lparr>cost_tracker := Some []\<rparr>)) = 0"
  by (simp add: revenue_withFinancials cost_withFinancials sample_item_def list_or_empty_def
      num_or_zero_def)

section \<open>Properties of the commission summary\<close>

lemma foldl_commission_step:
  "foldl (commission_step u) (t, p) evs =
     (t + (\<Sum>e\<leftarrow>filter (\<lambda>e. profit e > 0) evs. commission_amount u e),
      p + (\<Sum>e\<leftarrow>filter (\<lambda>e. profit e > 0 \<and> commissionPaid e = Some True) evs. commission_amount u e))"
  by (induction evs arbitrary: t p)
     (simp_all add: commission_step_def commission_amount_def Let_def)

lemma user_summary_sums:
  "user_summary fins u =
     (let mine = filter (\<lambda>e. salespersonId e = userId u) fins;
          total_c = (\<Sum>e\<leftarrow>filter (\<lambda>e. profit e > 0) mine. commission_amount u e);
          paid_c = (\<Sum>e\<leftarrow>filter (\<lambda>e. profit e > 0 \<and> commissionPaid e = Some True) mine.
                      commission_amount u e)
      in \<lparr>user = u, totalCommission = total_c, paidCommission = paid_c,
          pendingCommission = total_c - paid_c, eventCount = length mine\<rparr>)"
  by (simp add: user_summary_def Let_def foldl_commission_step)

lemma profit_500: "profit (withFinancials event_profit_500) = 500"
  by (simp add: profit_withFinancials revenue_withFinancials cost_withFinancials
      event_profit_500_def list_or_empty_def num_or_zero_def)

lemma profit_loss: "profit (withFinancials event_loss_100) = - 100"
  by (simp add: profit_withFinancials revenue_withFinancials cost_withFinancials
      event_loss_100_def list_or_empty_def num_or_zero_def)

lemma withFinancials_fields:
  "salespersonId (withFinancials e) = salespersonId e"
  "event.commissionRate (withFinancials e) = event.commissionRate e"
  "commissionPaid (withFinancials e) = commissionPaid e"
  by (simp_all add: withFinancials_def Let_def event.defs event_financials.defs)

text \<open>
  C3. The summary has one entry for every user with role Sales, in the order of the users.
  With \<open>mine\<close> the derived events whose \<^verbatim>\<open>salespersonId\<close> is the user's \<^verbatim>\<open>userId\<close>, the total
  commission is the sum of the amounts \<^verbatim>\<open>profit * (event.commissionRate ?? user.commissionRate
  ?? 0) / 100\<close> over the events of \<open>mine\<close> with positive profit, the paid commission the sum
  of the same amounts over those of them whose \<^verbatim>\<open>commissionPaid\<close> is set, the pending
  commission their difference, and the event count the length of \<open>mine\<close>. Two events of
  profit 500 and \<open>-100\<close> for a Sales user with commission rate 10 give a total of 50.
\<close>

theorem commissionSummary_sums:
  "commissionSummary users events =
     map (\<lambda>u. let mine = filter (\<lambda>e. salespersonId e = userId u) (eventFinancials events);
                  total_c = (\<Sum>e\<leftarrow>filter (\<lambda>e. profit e > 0) mine. commission_amount u e);
                  paid_c = (\<Sum>e\<leftarrow>filter (\<lambda>e. profit e > 0 \<and> commissionPaid e = Some True) mine.
                              commission_amount u e)
              in \<lparr>user = u, totalCommission = total_c, paidCommission = paid_c,
                  pendingCommission = total_c - paid_c, eventCount = length mine\<rparr>)
         (filter (\<lambda>u. role u = Sales) users)
   \<and> commission_amount u e =
       profit e * (case event.commissionRate e of Some r \<Rightarrow> r
                   | None \<Rightarrow> (case user.commissionRate u of Some r \<Rightarrow> r | None \<Rightarrow> 0)) / 100
   \<and> profit (withFinancials event_profit_500) = 500
   \<and> profit (withFinancials event_loss_100) = - 100
   \<and> commissionSummary [sample_user] [event_profit_500, event_loss_100] =
       [\<lparr>user = sample_user, totalCommission = 50, paidCommission = 0,
         pendingCommission = 50, eventCount = 2\<rparr>]"
proof -
  have general: "commissionSummary users events =
     map (\<lambda>u. let mine = filter (\<lambda>e. salespersonId e = userId u) (eventFinancials events);
                  total_c = (\<Sum>e\<leftarrow>filter (\<lambda>e. profit e > 0) mine. commission_amount u e);
                  paid_c = (\<Sum>e\<leftarrow>filter (\<lambda>e. profit e > 0 \<and> commissionPaid e = Some True) mine.
                              commission_amount u e)
              in \<lparr>user = u, totalCommission = total_c, paidCommission = paid_c,
                  pendingCommission = total_c - paid_c, eventCount = length mine\<rparr>)
         (filter (\<lambda>u. role u = Sales) users)" for users events
    unfolding commissionSummary_def Let_def
    by (rule map_cong) (simp_all add: user_summary_sums Let_def)
  have amount: "commission_amount u e =
       profit e * (case event.commissionRate e of Some r \<Rightarrow> r
                   | None \<Rightarrow> (case user.commissionRate u of Some r \<Rightarrow> r | None \<Rightarrow> 0)) / 100"
    by (simp add: commission_amount_def nullish_or_def split: option.splits)
  have owner: "salespersonId event_profit_500 = userId sample_user"
    "salespersonId event_loss_100 = userId sample_user"
    "event.commissionRate event_profit_500 = None" "user.commissionRate sample_user = Some 10"
    "commissionPaid event_profit_500 = None" "role sample_user = Sales"
    by (simp_all add: event_profit_500_def event_loss_100_def sample_user_def sample_event_def)
  have example: "commissionSummary [sample_user] [event_profit_500, event_loss_100] =
       [\<lparr>user = sample_user, totalCommission = 50, paidCommission = 0,
         pendingCommission = 50, eventCount = 2\<rparr>]"
    by (simp add: general [of "[sample_user]"] eventFinancials_def Let_def withFinancials_fields owner
        profit_500 profit_loss commission_amount_def nullish_or_def)
  from general amount profit_500 profit_loss example show ?thesis by blast
qed

section \<open>Properties of the match score\<close>

lemma starts_with_iff: "starts_with s t \<longleftrightarrow> (\<exists>q. s = t @ q)"
  by (induction s t rule: starts_with.induct) auto

lemma includes_str_iff: "includes_str s t \<longleftrightarrow> (\<exists>p q. s = p @ t @ q)"
proof (induction s)
  case Nil
  then show ?case by simp
next
  case (Cons x xs)
  show ?case
  proof
    assume "includes_str (x # xs) t"
    then consider "starts_with (x # xs) t" | "includes_str xs t" by auto
    then show "\<exists>p q. x # xs = p @ t @ q"
    proof cases
      case 1
      then obtain q where "x # xs = t @ q" by (auto simp: starts_with_iff)
      then have "x # xs = [] @ t @ q" by simp
      then show ?thesis by blast
    next
      case 2
      with Cons obtain p q where "xs = p @ t @ q" by blast
      then have "x # xs = (x # p) @ t @ q" by simp
      then show ?thesis by blast
    qed
  next
    assume "\<exists>p q. x # xs = p @ t @ q"
    then obtain p q where pq: "x # xs = p @ t @ q" by blast
    show "includes_str (x # xs) t"
    proof (cases p)
      case Nil
      with pq have "starts_with (x # xs) t" by (auto simp: starts_with_iff)
      then show ?thesis by simp
    next
      case (Cons y ys)
      with pq have "xs = ys @ t @ q" by simp
      with Cons.IH have "includes_str xs t" by blast
      then show ?thesis by simp
    qed
  qed
qed

lemma includes_str_Nil [simp]: "includes_str s []"
  by (cases s) simp_all

lemma set_new_Set [simp]: "set (new_Set xs) = set xs"
  by (induction xs) auto

lemma distinct_new_Set [simp]: "distinct (new_Set xs)"
  by (induction xs) auto

lemma length_new_Set: "length (new_Set xs) = card (set xs)"
  using distinct_card [of "new_Set xs"] by simp

lemma split_scan_nonempty: "split_scan b cur s \<noteq> []"
  by (induction s arbitrary: b cur) auto

lemma split_ws_nonempty: "split_ws s \<noteq> []"
  by (simp add: split_ws_def split_scan_nonempty)

lemma finite_token_set [simp]: "finite (token_set s)"
  by (simp add: token_set_def)

lemma overlap_ratio:
  assumes "token_set a \<inter> token_set b \<noteq> {}"
  shows "0 < real (card (token_set a \<inter> token_set b)) / real (max (card (token_set a)) (card (token_set b)))"
    and "real (card (token_set a \<inter> token_set b)) / real (max (card (token_set a)) (card (token_set b))) \<le> 1"
proof -
  let ?i = "card (token_set a \<inter> token_set b)"
  let ?m = "max (card (token_set a)) (card (token_set b))"
  have ipos: "0 < ?i" using assms by (simp add: card_gt_0_iff)
  have "?i \<le> card (token_set a)" by (simp add: card_mono)
  then have le: "?i \<le> ?m" by simp
  have mpos: "0 < ?m" using ipos le by linarith
  show "0 < real ?i / real ?m" using ipos mpos by simp
  show "real ?i / real ?m \<le> 1" using le mpos by simp
qed

lemma calculateMatchScore_eq:
  "calculateMatchScore target cand =
     (let s1 = strip_non_alnum (toLowerCase target);
          s2 = strip_non_alnum (toLowerCase cand)
      in if s1 = s2 then 1
         else if (\<exists>p q. s1 = p @ s2 @ q) \<or> (\<exists>p q. s2 = p @ s1 @ q) then 0.8
         else if token_set target \<inter> token_set cand \<noteq> {}
              then 0.5 + (real (card (token_set target \<inter> token_set cand)) /
                          real (max (card (token_set target)) (card (token_set cand)))) * 0.4
              else 0)"
proof -
  have inter: "set (filter (\<lambda>x. x \<in> set (new_Set (split_ws (toLowerCase cand))))
                   (new_Set (split_ws (toLowerCase target)))) = token_set target \<inter> token_set cand"
    by (auto simp: token_set_def)
  have len: "length (new_Set (filter (\<lambda>x. x \<in> set (new_Set (split_ws (toLowerCase cand))))
                   (new_Set (split_ws (toLowerCase target))))) = card (token_set target \<inter> token_set cand)"
    by (simp only: length_new_Set inter)
  have l1: "length (new_Set (split_ws (toLowerCase target))) = card (token_set target)"
    and l2: "length (new_Set (split_ws (toLowerCase cand))) = card (token_set cand)"
    by (simp_all add: length_new_Set token_set_def)
  have pos: "0 < card (token_set target \<inter> token_set cand) \<longleftrightarrow>
      token_set target \<inter> token_set cand \<noteq> {}"
    by (simp add: card_gt_0_iff)
  show ?thesis
    unfolding calculateMatchScore_def Let_def len l1 l2 pos includes_str_iff
    by simp
qed

lemma calculateMatchScore_nonneg: "0 \<le> calculateMatchScore target cand"
proof -
  have "0 \<le> real (card (token_set target \<inter> token_set cand)) /
             real (max (card (token_set target)) (card (token_set cand)))"
    by simp
  then show ?thesis
    unfolding calculateMatchScore_eq Let_def by simp
qed

lemma calculateMatchScore_empty:
  "calculateMatchScore [] cand = (if strip_non_alnum (toLowerCase cand) = [] then 1 else 0.8)"
  by (simp add: calculateMatchScore_def Let_def toLowerCase_def strip_non_alnum_def)

lemma score_zenith_acme: "calculateMatchScore ''Zenith'' ''Acme'' = 0"
  by (simp add: calculateMatchScore_def toLowerCase_def strip_non_alnum_def lower_char_def
      is_upper_def is_alnum_def code_unit_def Let_def split_ws_def is_ws_def)

lemma score_noor_house: "calculateMatchScore ''Noor Catering'' ''Catering House'' = 7 / 10"
  by (simp add: calculateMatchScore_def toLowerCase_def strip_non_alnum_def lower_char_def
      is_upper_def is_alnum_def code_unit_def Let_def split_ws_def is_ws_def)

lemma score_noor_acme: "calculateMatchScore ''Noor Catering'' ''Acme'' = 0"
  by (simp add: calculateMatchScore_def toLowerCase_def strip_non_alnum_def lower_char_def
      is_upper_def is_alnum_def code_unit_def Let_def split_ws_def is_ws_def)

lemma inj_of_char_nat: "inj (of_char :: char \<Rightarrow> nat)"
  by (simp add: inj_def)

lemma is_alnum_iff: "is_alnum c \<longleftrightarrow> c \<in> set ''abcdefghijklmnopqrstuvwxyz0123456789''"
proof -
  let ?S = "set ''abcdefghijklmnopqrstuvwxyz0123456789''"
  have "c \<in> ?S \<longleftrightarrow> (of_char c :: nat) \<in> of_char ` ?S"
    by (simp only: inj_image_mem_iff [OF inj_of_char_nat])
  also have "\<dots> \<longleftrightarrow> (97 \<le> (of_char c :: nat) \<and> (of_char c :: nat) \<le> 122)
      \<or> (48 \<le> (of_char c :: nat) \<and> (of_char c :: nat) \<le> 57)"
    by (simp, arith)
  finally show ?thesis by (simp add: is_alnum_def code_unit_def Let_def)
qed

lemma strip_non_alnum_eq:
  "strip_non_alnum s = filter (\<lambda>c. c \<in> set ''abcdefghijklmnopqrstuvwxyz0123456789'') s"
  unfolding strip_non_alnum_def by (rule filter_cong) (simp_all only: is_alnum_iff)

lemma is_ws_iff: "is_ws c \<longleftrightarrow> (of_char c :: nat) \<in> {9, 10, 11, 12, 13, 32, 160}"
  by (simp add: is_ws_def code_unit_def Let_def, arith)

lemma lower_char_code:
  "of_char (lower_char c) =
     (let n = of_char c :: nat
      in if (65 \<le> n \<and> n \<le> 90) \<or> (192 \<le> n \<and> n \<le> 222 \<and> n \<noteq> 215) then n + 32 else n)"
proof (cases c)
  case (Char b0 b1 b2 b3 b4 b5 b6 b7)
  show ?thesis
    unfolding Char lower_char_def is_upper_def code_unit_def Let_def
    by (cases b5; cases b6; cases b7; cases b0; cases b1; cases b2; cases b3; cases b4; simp)
qed

lemma toLowerCase_code:
  "map of_char (toLowerCase s) =
     map (\<lambda>c. let n = of_char c :: nat
               in if (65 \<le> n \<and> n \<le> 90) \<or> (192 \<le> n \<and> n \<le> 222 \<and> n \<noteq> 215) then n + 32 else n) s"
  by (simp add: toLowerCase_def lower_char_code)

lemma split_scan_token:
  "\<forall>c\<in>set t. \<not> is_ws c \<Longrightarrow> split_scan False cur (t @ u) = split_scan False (cur @ t) u"
  by (induction t arbitrary: cur) simp_all

lemma split_scan_run:
  "\<forall>c\<in>set r. is_ws c \<Longrightarrow> split_scan True cur (r @ u) = split_scan True cur u"
  by (induction r) simp_all

lemma split_scan_cut:
  "r \<noteq> [] \<Longrightarrow> \<forall>c\<in>set r. is_ws c \<Longrightarrow> split_scan False cur (r @ u) = cur # split_scan True [] u"
  by (cases r) (simp_all add: split_scan_run)

lemma split_scan_restart:
  "u = [] \<or> \<not> is_ws (hd u) \<Longrightarrow> split_scan True [] u = split_scan False [] u"
  by (cases u) simp_all

lemma split_ws_single:
  assumes "\<forall>c\<in>set t. \<not> is_ws c"
  shows "split_ws t = [t]"
  using split_scan_token [OF assms, of "[]" "[]"] by (simp add: split_ws_def)

lemma split_ws_cut:
  assumes "\<forall>c\<in>set t. \<not> is_ws c" and "r \<noteq> []" and "\<forall>c\<in>set r. is_ws c"
    and "rest = [] \<or> \<not> is_ws (hd rest)"
  shows "split_ws (t @ r @ rest) = t # split_ws rest"
proof -
  have "split_ws (t @ r @ rest) = split_scan False t (r @ rest)"
    using split_scan_token [OF assms(1), of "[]" "r @ rest"] by (simp add: split_ws_def)
  also have "\<dots> = t # split_scan True [] rest"
    by (rule split_scan_cut [OF assms(2,3)])
  also have "split_scan True [] rest = split_ws rest"
    using split_scan_restart [OF assms(4)] by (simp add: split_ws_def)
  finally show ?thesis .
qed

text \<open>
  C2. With \<open>s1\<close> and \<open>s2\<close> the lower-cased names without their non-alphanumeric characters,
  the score is 1 when \<open>s1 = s2\<close>; else 0.8 when one of them occurs in the other as a
  contiguous run; else, with the token sets of the lower-cased unstripped names,
  \<open>0.5 + (|T1 \<inter> T2| / max |T1| |T2|) * 0.4\<close> when the token sets meet, a value above 0.5 and
  at most 0.9; else 0. Here lower-casing moves the code units 65 to 90, and 192 to 222
  without 215, up by 32 and leaves every other code unit; stripping keeps exactly the
  characters a to z and 0 to 9; the token set of a name is the set of the pieces of its
  lower-cased form between the runs of white space (code units 9 to 13, 32 and 160): a
  string without white space is its own single piece, and a string that starts with a piece
  free of white space, followed by a non-empty run of white space and a rest that does not
  start with white space, splits into that piece and the pieces of the rest.
\<close>

theorem calculateMatchScore_branches:
  "calculateMatchScore target cand =
     (let s1 = strip_non_alnum (toLowerCase target);
          s2 = strip_non_alnum (toLowerCase cand)
      in if s1 = s2 then 1
         else if (\<exists>p q. s1 = p @ s2 @ q) \<or> (\<exists>p q. s2 = p @ s1 @ q) then 0.8
         else if token_set target \<inter> token_set cand \<noteq> {}
              then 0.5 + (real (card (token_set target \<inter> token_set cand)) /
                          real (max (card (token_set target)) (card (token_set cand)))) * 0.4
              else 0)
   \<and> (token_set target \<inter> token_set cand \<noteq> {} \<longrightarrow>
        0.5 < 0.5 + (real (card (token_set target \<inter> token_set cand)) /
                     real (max (card (token_set target)) (card (token_set cand)))) * 0.4
        \<and> 0.5 + (real (card (token_set target \<inter> token_set cand)) /
                  real (max (card (token_set target)) (card (token_set cand)))) * 0.4 \<le> 0.9)
   \<and> map of_char (toLowerCase s) =
       map (\<lambda>c. let n = of_char c :: nat
                 in if (65 \<le> n \<and> n \<le> 90) \<or> (192 \<le> n \<and> n \<le> 222 \<and> n \<noteq> 215)
                    then n + 32 else n) s
   \<and> strip_non_alnum s = filter (\<lambda>c. c \<in> set ''abcdefghijklmnopqrstuvwxyz0123456789'') s
   \<and> token_set s = set (split_ws (toLowerCase s))
   \<and> ((\<forall>c\<in>set w. (of_char c :: nat) \<notin> {9, 10, 11, 12, 13, 32, 160}) \<longrightarrow> split_ws w = [w])
   \<and> ((\<forall>c\<in>set tok. (of_char c :: nat) \<notin> {9, 10, 11, 12, 13, 32, 160})
        \<and> run \<noteq> [] \<and> (\<forall>c\<in>set run. (of_char c :: nat) \<in> {9, 10, 11, 12, 13, 32, 160})
        \<and> (rest = [] \<or> (of_char (hd rest) :: nat) \<notin> {9, 10, 11, 12, 13, 32, 160})
        \<longrightarrow> split_ws (tok @ run @ rest) = tok # split_ws rest)"
proof -
  have range: "0.5 < 0.5 + r * 0.4 \<and> 0.5 + r * 0.4 \<le> 0.9" if "0 < r" "r \<le> 1" for r :: real
    using that by simp
  have branches: "calculateMatchScore target cand =
     (let s1 = strip_non_alnum (toLowerCase target);
          s2 = strip_non_alnum (toLowerCase cand)
      in if s1 = s2 then 1
         else if (\<exists>p q. s1 = p @ s2 @ q) \<or> (\<exists>p q. s2 = p @ s1 @ q) then 0.8
         else if token_set target \<inter> token_set cand \<noteq> {}
              then 0.5 + (real (card (token_set target \<inter> token_set cand)) /
                          real (max (card (token_set target)) (card (token_set cand)))) * 0.4
              else 0)"
    by (rule calculateMatchScore_eq)
  have bounds: "token_set target \<inter> token_set cand \<noteq> {} \<longrightarrow>
        0.5 < 0.5 + (real (card (token_set target \<inter> token_set cand)) /
                     real (max (card (token_set target)) (card (token_set cand)))) * 0.4
        \<and> 0.5 + (real (card (token_set target \<inter> token_set cand)) /
                  real (max (card (token_set target)) (card (token_set cand)))) * 0.4 \<le> 0.9"
    using overlap_ratio [of target cand] range by blast
  have single: "(\<forall>c\<in>set w. (of_char c :: nat) \<notin> {9, 10, 11, 12, 13, 32, 160}) \<longrightarrow> split_ws w = [w]"
    using split_ws_single [of w] by (simp only: is_ws_iff) blast
  have cut: "(\<forall>c\<in>set tok. (of_char c :: nat) \<notin> {9, 10, 11, 12, 13, 32, 160})
        \<and> run \<noteq> [] \<and> (\<forall>c\<in>set run. (of_char c :: nat) \<in> {9, 10, 11, 12, 13, 32, 160})
        \<and> (rest = [] \<or> (of_char (hd rest) :: nat) \<notin> {9, 10, 11, 12, 13, 32, 160})
        \<longrightarrow> split_ws (tok @ run @ rest) = tok # split_ws rest"
    using split_ws_cut [of tok run rest] by (simp only: is_ws_iff) blast
  from branches bounds toLowerCase_code [of s] strip_non_alnum_eq [of s] token_set_def [of s] single cut
  show ?thesis by (intro conjI)
qed

theorem calculateMatchScore_branches_witness:
  "strip_non_alnum (toLowerCase ''AL-Noor Est.'') = ''alnoorest''
   \<and> split_ws ''noor  catering'' = [''noor'', ''catering'']
   \<and> calculateMatchScore ''AL-NOOR'' ''al noor'' = 1
   \<and> calculateMatchScore ''Al Noor Catering'' ''Al-Noor Catering Est.'' = 0.8
   \<and> token_set ''Noor Catering'' \<inter> token_set ''Catering House'' \<noteq> {}
   \<and> calculateMatchScore ''Noor Catering'' ''Catering House'' = 7 / 10
   \<and> (0.5 :: real) < 7 / 10 \<and> (7 / 10 :: real) \<le> 0.9
   \<and> calculateMatchScore ''Zenith'' ''Acme'' = 0"
proof -
  note th = calculateMatchScore_branches
  have br: "calculateMatchScore a b =
     (let s1 = strip_non_alnum (toLowerCase a);
          s2 = strip_non_alnum (toLowerCase b)
      in if s1 = s2 then 1
         else if (\<exists>p q. s1 = p @ s2 @ q) \<or> (\<exists>p q. s2 = p @ s1 @ q) then 0.8
         else if token_set a \<inter> token_set b \<noteq> {}
              then 0.5 + (real (card (token_set a \<inter> token_set b)) /
                          real (max (card (token_set a)) (card (token_set b)))) * 0.4
              else 0)" for a b
    using th [where target = a and cand = b] by (rule conjunct1)
  have low: "toLowerCase ''AL-Noor Est.'' = ''al-noor est.''"
    by (simp add: toLowerCase_def lower_char_def is_upper_def code_unit_def)
  have "strip_non_alnum ''al-noor est.'' = filter (\<lambda>c. c \<in> set ''abcdefghijklmnopqrstuvwxyz0123456789'') ''al-noor est.''"
    using th [where s = "''al-noor est.''"] by blast
  then have strip: "strip_non_alnum (toLowerCase ''AL-Noor Est.'') = ''alnoorest''"
    by (simp add: low)
  have "split_ws (''noor'' @ ''  '' @ ''catering'') = ''noor'' # split_ws ''catering''"
    using th [where tok = "''noor''" and run = "''  ''" and rest = "''catering''"] by simp
  moreover have "split_ws ''catering'' = [''catering'']"
    using th [where w = "''catering''"] by simp
  ultimately have split: "split_ws ''noor  catering'' = [''noor'', ''catering'']" by simp
  have s: "strip_non_alnum (toLowerCase ''AL-NOOR'') = ''alnoor''"
    "strip_non_alnum (toLowerCase ''al noor'') = ''alnoor''"
    "strip_non_alnum (toLowerCase ''Al Noor Catering'') = ''alnoorcatering''"
    "strip_non_alnum (toLowerCase ''Al-Noor Catering Est.'') = ''alnoorcateringest''"
    "strip_non_alnum (toLowerCase ''Noor Catering'') = ''noorcatering''"
    "strip_non_alnum (toLowerCase ''Catering House'') = ''cateringhouse''"
    "strip_non_alnum (toLowerCase ''Zenith'') = ''zenith''"
    "strip_non_alnum (toLowerCase ''Acme'') = ''acme''"
    by (simp_all add: strip_non_alnum_def toLowerCase_def lower_char_def is_upper_def
        is_alnum_def code_unit_def)
  have equal: "calculateMatchScore ''AL-NOOR'' ''al noor'' = 1"
    unfolding br Let_def s by simp
  have sub: "\<exists>p q. ''alnoorcateringest'' = p @ ''alnoorcatering'' @ q"
    unfolding includes_str_iff [symmetric] by simp
  have substring: "calculateMatchScore ''Al Noor Catering'' ''Al-Noor Catering Est.'' = 0.8"
    unfolding br Let_def s using sub by simp
  have t: "token_set ''Noor Catering'' = {''noor'', ''catering''}"
    "token_set ''Catering House'' = {''catering'', ''house''}"
    "token_set ''Zenith'' = {''zenith''}" "token_set ''Acme'' = {''acme''}"
    by (simp_all add: token_set_def split_ws_def toLowerCase_def lower_char_def is_upper_def
        is_ws_def code_unit_def)
  have i: "token_set ''Noor Catering'' \<inter> token_set ''Catering House'' = {''catering''}"
    unfolding t by auto
  have n: "\<not> ((\<exists>p q. ''noorcatering'' = p @ ''cateringhouse'' @ q)
             \<or> (\<exists>p q. ''cateringhouse'' = p @ ''noorcatering'' @ q))"
    "\<not> ((\<exists>p q. ''zenith'' = p @ ''acme'' @ q) \<or> (\<exists>p q. ''acme'' = p @ ''zenith'' @ q))"
    unfolding includes_str_iff [symmetric] by simp_all
  have c: "card (token_set ''Noor Catering'') = 2" "card (token_set ''Catering House'') = 2"
    unfolding t by simp_all
  have tokens: "calculateMatchScore ''Noor Catering'' ''Catering House'' = 7 / 10"
    unfolding br Let_def s i c using n by simp
  have zero: "calculateMatchScore ''Zenith'' ''Acme'' = 0"
    unfolding br Let_def s t using n by simp
  have meet: "token_set ''Noor Catering'' \<inter> token_set ''Catering House'' \<noteq> {}"
    unfolding i by simp
  from strip split equal substring meet tokens zero show ?thesis by simp
qed

section \<open>Properties of the reconciliation pass\<close>

lemma best_step_eq:
  "best_step nm (bm, bs) c = (if score_of nm c > bs then (Some c, score_of nm c) else (bm, bs))"
  by (simp add: best_step_def score_of_def Let_def)

lemma exactMatch_None_iff:
  "find (\<lambda>c. toLowerCase (trim (companyName c)) = toLowerCase (trim (clientName ev))) clients = None
     \<longleftrightarrow> \<not> resolved clients ev"
  by (auto simp: find_None_iff resolved_def normalize_def)

lemma unlinked_step_eq:
  "unlinked_step clients ignoredIds unlinked ev =
     (if \<not> resolved clients ev \<and> eventId ev \<notin> ignoredIds
      then unlinked @ [candidate clients ev] else unlinked)"
  by (simp add: unlinked_step_def Let_def exactMatch_None_iff candidate_def split: prod.splits)

lemma foldl_unlinked_step:
  "foldl (unlinked_step clients ignoredIds) acc events =
     acc @ map (candidate clients)
             (filter (\<lambda>ev. \<not> resolved clients ev \<and> eventId ev \<notin> ignoredIds) events)"
  by (induction events arbitrary: acc) (simp_all add: unlinked_step_eq)

lemma findUnresolved_eq:
  "findUnresolved events clients ignoredIds =
     map (candidate clients)
       (filter (\<lambda>ev. \<not> resolved clients ev \<and> eventId ev \<notin> ignoredIds) events)"
  by (simp add: findUnresolved_def foldl_unlinked_step)

lemma event_candidate [simp]: "event (candidate clients ev) = ev"
  by (simp add: candidate_def)

lemma in_findUnresolvedD:
  assumes "item \<in> set (findUnresolved events clients ignoredIds)"
  shows "event item \<in> set events" and "\<not> resolved clients (event item)"
    and "eventId (event item) \<notin> ignoredIds"
  using assms by (auto simp: findUnresolved_eq)

lemma length_findUnresolved:
  "length (findUnresolved events clients ignoredIds) =
     length (filter (\<lambda>ev. \<not> resolved clients ev \<and> eventId ev \<notin> ignoredIds) events)"
  by (simp add: findUnresolved_eq)

lemma length_filter_map_less:
  assumes imp: "\<And>x. x \<in> set xs \<Longrightarrow> Q (f x) \<Longrightarrow> P x"
    and x0: "x0 \<in> set xs" "P x0" "\<not> Q (f x0)"
  shows "length (filter Q (map f xs)) < length (filter P xs)"
proof -
  have "filter (Q \<circ> f) xs = filter (Q \<circ> f) (filter P xs)"
    using imp by (auto simp: filter_filter intro: filter_cong)
  moreover have "length (filter (Q \<circ> f) (filter P xs)) < length (filter P xs)"
    using x0 by (intro length_filter_less [of x0]) auto
  ultimately show ?thesis by (simp add: filter_map)
qed

lemma length_filter_imp_le:
  assumes "\<And>x. x \<in> set xs \<Longrightarrow> Q x \<Longrightarrow> P x"
  shows "length (filter Q xs) \<le> length (filter P xs)"
proof -
  have "filter Q xs = filter Q (filter P xs)"
    using assms by (auto simp: filter_filter intro: filter_cong)
  then show ?thesis by (metis length_filter_le)
qed

lemma resolved_link:
  assumes "c \<in> set clients"
  shows "resolved clients (e\<lparr>clientName := companyName c, clientContact := cc\<rparr>)"
  using assms by (auto simp: resolved_def)

lemma update_resolving_less:
  assumes item: "item \<in> set (findUnresolved events clients ignoredIds)"
    and patch: "\<And>e. resolved clients (patch e)"
  shows "length (findUnresolved (updateEvent events (eventId (event item)) patch) clients ignoredIds)
           < length (findUnresolved events clients ignoredIds)"
proof -
  note d = in_findUnresolvedD [OF item]
  let ?g = "\<lambda>e. if eventId e = eventId (event item) then patch e else e"
  let ?P = "\<lambda>ev. \<not> resolved clients ev \<and> eventId ev \<notin> ignoredIds"
  have "length (filter ?P (map ?g events)) < length (filter ?P events)"
  proof (rule length_filter_map_less [where ?x0.0 = "event item"])
    fix x assume "x \<in> set events" and "?P (?g x)"
    then show "?P x" using patch by (auto split: if_splits)
  next
    show "event item \<in> set events" by (rule d(1))
    show "?P (event item)" using d by simp
    show "\<not> ?P (?g (event item))" using patch by simp
  qed
  then show ?thesis by (simp add: length_findUnresolved updateEvent_def)
qed

lemma link_less:
  assumes item: "item \<in> set (findUnresolved events clients ignoredIds)"
    and c: "c \<in> set clients"
  shows "length (findUnresolved (handleLink events clients (Some item) (companyName c)) clients ignoredIds)
           < length (findUnresolved events clients ignoredIds)"
  unfolding handleLink_def Let_def option.case
  by (rule update_resolving_less [OF item]) (rule resolved_link [OF c])

lemma resolved_mono:
  "set clients \<subseteq> set clients' \<Longrightarrow> resolved clients e \<Longrightarrow> resolved clients' e"
  by (auto simp: resolved_def)

lemma create_less:
  assumes item: "item \<in> set (findUnresolved events clients ignoredIds)"
  shows "length (findUnresolved events (handleCreate clients (Some item) new_id now) ignoredIds)
           < length (findUnresolved events clients ignoredIds)"
proof -
  note d = in_findUnresolvedD [OF item]
  let ?cs = "handleCreate clients (Some item) new_id now"
  have sub: "set clients \<subseteq> set ?cs"
    by (auto simp: handleCreate_def addClient_def)
  have new: "resolved ?cs (event item)"
    by (simp add: handleCreate_def addClient_def resolved_def)
  let ?P = "\<lambda>ev. \<not> resolved clients ev \<and> eventId ev \<notin> ignoredIds"
  let ?Q = "\<lambda>ev. \<not> resolved ?cs ev \<and> eventId ev \<notin> ignoredIds"
  have "length (filter ?Q (map (\<lambda>e. e) events)) < length (filter ?P events)"
  proof (rule length_filter_map_less [where ?x0.0 = "event item"])
    fix x assume "x \<in> set events" and "?Q x"
    then show "?P x" using resolved_mono [OF sub] by blast
  next
    show "event item \<in> set events" by (rule d(1))
    show "?P (event item)" using d by simp
    show "\<not> ?Q (event item)" using new by simp
  qed
  then show ?thesis by (simp add: length_findUnresolved)
qed

lemma ignore_le:
  "length (findUnresolved events clients (handleIgnore ignoredIds cur))
     \<le> length (findUnresolved events clients ignoredIds)"
proof -
  have sub: "ignoredIds \<subseteq> handleIgnore ignoredIds cur"
    by (auto simp: handleIgnore_def split: option.splits)
  show ?thesis
    unfolding length_findUnresolved
    by (rule length_filter_imp_le) (use sub in auto)
qed

lemma normalize_samples:
  "normalize ''Acme'' = ''acme''" "normalize '' ACME '' = ''acme''" "normalize ''Zenith'' = ''zenith''"
  by (simp_all add: normalize_def trim_def toLowerCase_def lower_char_def is_upper_def is_ws_def
      code_unit_def)

lemma findUnresolved_zenith:
  "findUnresolved [zenith_event] [sample_client] {} =
     [\<lparr>event = zenith_event, suggestedMatch = None, matchScore = 0\<rparr>]"
  by (simp add: findUnresolved_eq resolved_def candidate_def zenith_event_def sample_event_def
      sample_client_def normalize_samples findBestMatch_def best_step_eq score_of_def score_zenith_acme)

text \<open>
  C4. An event whose client name, trimmed and lower-cased, equals the trimmed and lower-cased
  company name of some client of the list is not the event of any entry of the
  reconciliation pass.
\<close>

theorem exact_match_not_unresolved:
  assumes "c \<in> set clients"
    and "normalize (companyName c) = normalize (clientName e)"
  shows "e \<notin> event ` set (findUnresolved events clients ignoredIds)"
proof
  assume "e \<in> event ` set (findUnresolved events clients ignoredIds)"
  then obtain item where "item \<in> set (findUnresolved events clients ignoredIds)" "event item = e"
    by auto
  then have "\<not> resolved clients e" using in_findUnresolvedD(2) by blast
  with assms show False by (auto simp: resolved_def)
qed

theorem exact_match_not_unresolved_witness:
  "sample_client \<in> set [sample_client]
   \<and> normalize (companyName sample_client) = normalize (clientName (sample_event\<lparr>clientName := '' ACME ''\<rparr>))
   \<and> sample_event\<lparr>clientName := '' ACME ''\<rparr>
       \<notin> event ` set (findUnresolved [sample_event\<lparr>clientName := '' ACME ''\<rparr>, zenith_event] [sample_client] {})"
proof -
  have m: "sample_client \<in> set [sample_client]" by simp
  have n: "normalize (companyName sample_client) =
      normalize (clientName (sample_event\<lparr>clientName := '' ACME ''\<rparr>))"
    by (simp add: sample_client_def normalize_samples)
  from exact_match_not_unresolved [OF m n] m n show ?thesis by blast
qed

text \<open>
  C7. Let \<open>item\<close> be an entry of the current pass. After linking its event to a client of the
  list, and after creating a client from its event, the next pass has fewer entries; after
  ignoring an event it has no more entries than before. The pass is a function of the events,
  the clients and the ignored ids alone, so running it again on the same three values gives
  the same list.
\<close>

theorem resolution_actions_shrink:
  assumes "item \<in> set (findUnresolved events clients ignoredIds)"
  shows "(c \<in> set clients \<longrightarrow>
            length (findUnresolved (handleLink events clients (Some item) (companyName c)) clients ignoredIds)
              < length (findUnresolved events clients ignoredIds))
       \<and> length (findUnresolved events (handleCreate clients (Some item) new_id now) ignoredIds)
           < length (findUnresolved events clients ignoredIds)
       \<and> length (findUnresolved events clients (handleIgnore ignoredIds (Some item)))
           \<le> length (findUnresolved events clients ignoredIds)
       \<and> findUnresolved events clients ignoredIds = findUnresolved events clients ignoredIds"
  using link_less [OF assms] create_less [OF assms] ignore_le by blast

theorem resolution_actions_shrink_witness:
  "\<lparr>event = zenith_event, suggestedMatch = None, matchScore = 0\<rparr>
      \<in> set (findUnresolved [zenith_event] [sample_client] {})
   \<and> sample_client \<in> set [sample_client]
   \<and> length (findUnresolved (handleLink [zenith_event] [sample_client]
         (Some \<lparr>event = zenith_event, suggestedMatch = None, matchScore = 0\<rparr>)
         (companyName sample_client)) [sample_client] {}) < 1
   \<and> length (findUnresolved [zenith_event] (handleCreate [sample_client]
         (Some \<lparr>event = zenith_event, suggestedMatch = None, matchScore = 0\<rparr>) ''c2'' ''2024-06-01'') {}) < 1
   \<and> length (findUnresolved [zenith_event] [sample_client] (handleIgnore {}
         (Some \<lparr>event = zenith_event, suggestedMatch = None, matchScore = 0\<rparr>))) \<le> 1"
proof -
  let ?item = "\<lparr>event = zenith_event, suggestedMatch = None, matchScore = 0\<rparr>"
  have m: "?item \<in> set (findUnresolved [zenith_event] [sample_client] {})"
    by (simp add: findUnresolved_zenith)
  have c: "sample_client \<in> set [sample_client]" by simp
  have l: "length (findUnresolved [zenith_event] [sample_client] {}) = 1"
    by (simp add: findUnresolved_zenith)
  from resolution_actions_shrink [OF m, of sample_client "''c2''" "''2024-06-01''"] m c
  show ?thesis unfolding l by blast
qed

section \<open>Properties of the best match\<close>

lemma foldl_best_step:
  assumes "foldl (best_step nm) (bm, bs) cs = (bm', bs')"
  shows "(bm' = bm \<and> bs' = bs \<and> (\<forall>c\<in>set cs. score_of nm c \<le> bs))
       \<or> (\<exists>pre c post. cs = pre @ c # post \<and> bm' = Some c \<and> bs' = score_of nm c \<and> bs < score_of nm c
            \<and> (\<forall>p\<in>set pre. score_of nm p < score_of nm c)
            \<and> (\<forall>q\<in>set post. score_of nm q \<le> score_of nm c))"
  using assms
proof (induction cs arbitrary: bm bs)
  case Nil
  then show ?case by simp
next
  case (Cons x xs)
  show ?case
  proof (cases "score_of nm x > bs")
    case True
    with Cons.prems have run: "foldl (best_step nm) (Some x, score_of nm x) xs = (bm', bs')"
      by (simp add: best_step_eq)
    from Cons.IH [OF run] show ?thesis
    proof (elim disjE conjE exE)
      assume "bm' = Some x" "bs' = score_of nm x" "\<forall>c\<in>set xs. score_of nm c \<le> score_of nm x"
      with True have "x # xs = [] @ x # xs \<and> bm' = Some x \<and> bs' = score_of nm x \<and> bs < score_of nm x
            \<and> (\<forall>p\<in>set []. score_of nm p < score_of nm x)
            \<and> (\<forall>q\<in>set xs. score_of nm q \<le> score_of nm x)" by simp
      then show ?thesis by blast
    next
      fix pre c post
      assume h: "xs = pre @ c # post" "bm' = Some c" "bs' = score_of nm c"
        "score_of nm x < score_of nm c" "\<forall>p\<in>set pre. score_of nm p < score_of nm c"
        "\<forall>q\<in>set post. score_of nm q \<le> score_of nm c"
      with True have "x # xs = (x # pre) @ c # post \<and> bm' = Some c \<and> bs' = score_of nm c \<and> bs < score_of nm c
            \<and> (\<forall>p\<in>set (x # pre). score_of nm p < score_of nm c)
            \<and> (\<forall>q\<in>set post. score_of nm q \<le> score_of nm c)" by auto
      then show ?thesis by blast
    qed
  next
    case False
    with Cons.prems have run: "foldl (best_step nm) (bm, bs) xs = (bm', bs')"
      by (simp add: best_step_eq)
    from Cons.IH [OF run] show ?thesis
    proof (elim disjE conjE exE)
      assume "bm' = bm" "bs' = bs" "\<forall>c\<in>set xs. score_of nm c \<le> bs"
      with False show ?thesis by auto
    next
      fix pre c post
      assume h: "xs = pre @ c # post" "bm' = Some c" "bs' = score_of nm c"
        "bs < score_of nm c" "\<forall>p\<in>set pre. score_of nm p < score_of nm c"
        "\<forall>q\<in>set post. score_of nm q \<le> score_of nm c"
      with False have "x # xs = (x # pre) @ c # post \<and> bm' = Some c \<and> bs' = score_of nm c \<and> bs < score_of nm c
            \<and> (\<forall>p\<in>set (x # pre). score_of nm p < score_of nm c)
            \<and> (\<forall>q\<in>set post. score_of nm q \<le> score_of nm c)" by auto
      then show ?thesis by blast
    qed
  qed
qed

text \<open>
  C8, as the code has it. When some client has a score above 0, the suggested client is the
  first client of the list whose score is the greatest score of the list, and the reported
  score is that score: every client before it scores less, every client after it scores no
  more. When no client has a score above 0, no client is suggested and the reported score
  is 0.
\<close>

theorem findBestMatch_first_positive_max:
  assumes "findBestMatch nm cs = (bm, bs)"
  shows "case bm of
           None \<Rightarrow> bs = 0 \<and> (\<forall>c\<in>set cs. score_of nm c = 0)
         | Some c \<Rightarrow> bs = score_of nm c \<and> 0 < bs
             \<and> (\<exists>pre post. cs = pre @ c # post
                  \<and> (\<forall>p\<in>set pre. score_of nm p < bs)
                  \<and> (\<forall>q\<in>set post. score_of nm q \<le> bs))"
proof -
  from assms have run: "foldl (best_step nm) (None, 0) cs = (bm, bs)"
    by (simp add: findBestMatch_def)
  from foldl_best_step [OF run] show ?thesis
  proof (elim disjE conjE exE)
    assume "bm = None" "bs = 0" and le: "\<forall>c\<in>set cs. score_of nm c \<le> 0"
    moreover have "score_of nm c = 0" if "c \<in> set cs" for c
      using le that calculateMatchScore_nonneg [of nm "companyName c"]
      by (simp add: score_of_def order.antisym)
    ultimately show ?thesis by simp
  next
    fix pre c post
    assume "cs = pre @ c # post" "bm = Some c" "bs = score_of nm c" "0 < score_of nm c"
      "\<forall>p\<in>set pre. score_of nm p < score_of nm c" "\<forall>q\<in>set post. score_of nm q \<le> score_of nm c"
    then show ?thesis by auto
  qed
qed

theorem findBestMatch_first_positive_max_witness:
  "findBestMatch ''Noor Catering''
     [sample_client, sample_client\<lparr>companyName := ''Catering House''\<rparr>,
      sample_client\<lparr>id := ''c3'', companyName := ''Catering House''\<rparr>]
     = (Some (sample_client\<lparr>companyName := ''Catering House''\<rparr>), 7 / 10)
   \<and> score_of ''Noor Catering'' (sample_client\<lparr>companyName := ''Catering House''\<rparr>) = 7 / 10
   \<and> (\<exists>pre post. [sample_client, sample_client\<lparr>companyName := ''Catering House''\<rparr>,
          sample_client\<lparr>id := ''c3'', companyName := ''Catering House''\<rparr>]
          = pre @ sample_client\<lparr>companyName := ''Catering House''\<rparr> # post
        \<and> list_all (\<lambda>p. score_of ''Noor Catering'' p < 7 / 10) pre
        \<and> list_all (\<lambda>q. score_of ''Noor Catering'' q \<le> 7 / 10) post)"
proof -
  let ?c2 = "sample_client\<lparr>companyName := ''Catering House''\<rparr>"
  let ?cs = "[sample_client, ?c2, sample_client\<lparr>id := ''c3'', companyName := ''Catering House''\<rparr>]"
  have run: "findBestMatch ''Noor Catering'' ?cs = (Some ?c2, 7 / 10)"
    by (simp add: findBestMatch_def best_step_eq score_of_def sample_client_def score_noor_house score_noor_acme)
  from findBestMatch_first_positive_max [OF run]
  have "7 / 10 = score_of ''Noor Catering'' ?c2"
    and "\<exists>pre post. ?cs = pre @ ?c2 # post
        \<and> (\<forall>p\<in>set pre. score_of ''Noor Catering'' p < 7 / 10)
        \<and> (\<forall>q\<in>set post. score_of ''Noor Catering'' q \<le> 7 / 10)"
    by simp_all
  with run show ?thesis by (simp add: list_all_iff)
qed

text \<open>
  C8, as the specification has it, fails where every score is 0: for the name Zenith and the
  one client Acme, that client has the greatest score of the list, and no client is suggested.
\<close>

theorem findBestMatch_zero_counterexample:
  "score_of ''Zenith'' sample_client = Max (score_of ''Zenith'' ` set [sample_client])
   \<and> fst (findBestMatch ''Zenith'' [sample_client]) = None"
  by (simp add: findBestMatch_def best_step_eq score_of_def sample_client_def score_zenith_acme)

section \<open>The empty client name\<close>

text \<open>
  C6. The score of the empty client name is not 0: it is 1 against a company name without
  alphanumeric characters and 0.8 against every other, the empty string occurring in every
  string. An event with the empty client name and the one client Acme gets that client as a
  suggestion with score 0.8, which passes the gate of the suggestion card.
\<close>

theorem empty_clientName_confident:
  "calculateMatchScore [] cand = (if strip_non_alnum (toLowerCase cand) = [] then 1 else 0.8)
   \<and> calculateMatchScore [] (companyName sample_client) = 0.8
   \<and> findUnresolved [sample_event\<lparr>clientName := []\<rparr>] [sample_client] {} =
       [\<lparr>event = sample_event\<lparr>clientName := []\<rparr>, suggestedMatch = Some sample_client,
         matchScore = 0.8\<rparr>]
   \<and> suggestion_shown \<lparr>event = sample_event\<lparr>clientName := []\<rparr>,
        suggestedMatch = Some sample_client, matchScore = 0.8\<rparr>"
proof -
  have strip: "strip_non_alnum (toLowerCase (companyName sample_client)) = ''acme''"
    by (simp add: sample_client_def strip_non_alnum_def toLowerCase_def lower_char_def
        is_upper_def is_alnum_def code_unit_def)
  have score: "calculateMatchScore [] (companyName sample_client) = 0.8"
    by (simp add: calculateMatchScore_empty strip)
  have best: "findBestMatch [] [sample_client] = (Some sample_client, 0.8)"
    by (simp add: findBestMatch_def best_step_def Let_def score)
  have norm: "toLowerCase (trim (companyName sample_client)) = ''acme''" "toLowerCase (trim []) = []"
    by (simp_all add: sample_client_def trim_def toLowerCase_def lower_char_def
        is_upper_def is_ws_def code_unit_def)
  have unres: "findUnresolved [sample_event\<lparr>clientName := []\<rparr>] [sample_client] {} =
       [\<lparr>event = sample_event\<lparr>clientName := []\<rparr>, suggestedMatch = Some sample_client,
         matchScore = 0.8\<rparr>]"
    by (simp add: findUnresolved_def unlinked_step_def Let_def norm best)
  have shown: "suggestion_shown \<lparr>event = sample_event\<lparr>clientName := []\<rparr>,
        suggestedMatch = Some sample_client, matchScore = 0.8\<rparr>"
    by (simp add: suggestion_shown_def)
  from calculateMatchScore_empty score unres shown show ?thesis by blast
qed

section \<open>Properties of the sort comparators\<close>

text \<open>
  C9. The comparator of the event list compares strings as they are: for the names apple and
  Banana in ascending order it answers 1, where the comparator of the service list, which
  lower-cases strings first, answers \<open>-1\<close>. Both compare numbers directly, the comparator of
  the service list compares two non-empty strings as the other compares their lower-cased
  forms, and requesting the key of the current configuration again flips the direction.
\<close>

theorem sort_comparators:
  "sortedEvents_compare toNumber \<lparr>key = ''name'', direction = asc\<rparr> (Str ''apple'') (Str ''Banana'') = 1
   \<and> sortedServices_compare toNumber \<lparr>key = ''name'', direction = asc\<rparr> (Str ''apple'') (Str ''Banana'') = - 1
   \<and> sortedEvents_compare toNumber cfg (Num x) (Num y) =
       (if x < y then (if direction cfg = asc then - 1 else 1)
        else if y < x then (if direction cfg = asc then 1 else - 1) else 0)
   \<and> sortedServices_compare toNumber cfg (Num x) (Num y) =
       (if x < y then (if direction cfg = asc then - 1 else 1)
        else if y < x then (if direction cfg = asc then 1 else - 1) else 0)
   \<and> sortedServices_compare toNumber cfg (Str (a # s)) (Str (b # t)) =
       sortedEvents_compare toNumber cfg (Str (toLowerCase (a # s))) (Str (toLowerCase (b # t)))
   \<and> requestSort (Some \<lparr>key = k, direction = d\<rparr>) k =
       Some \<lparr>key = k, direction = (if d = asc then desc else asc)\<rparr>"
proof -
  have ev: "sortedEvents_compare toNumber \<lparr>key = ''name'', direction = asc\<rparr> (Str ''apple'') (Str ''Banana'') = 1"
    by (simp add: sortedEvents_compare_def code_unit_def)
  have sv: "sortedServices_compare toNumber \<lparr>key = ''name'', direction = asc\<rparr> (Str ''apple'') (Str ''Banana'') = - 1"
    by (simp add: sortedServices_compare_def Let_def toLowerCase_def lower_char_def is_upper_def code_unit_def)
  have en: "sortedEvents_compare toNumber cfg (Num x) (Num y) =
       (if x < y then (if direction cfg = asc then - 1 else 1)
        else if y < x then (if direction cfg = asc then 1 else - 1) else 0)"
    by (simp add: sortedEvents_compare_def)
  have sn: "sortedServices_compare toNumber cfg (Num x) (Num y) =
       (if x < y then (if direction cfg = asc then - 1 else 1)
        else if y < x then (if direction cfg = asc then 1 else - 1) else 0)"
    by (simp add: sortedServices_compare_def)
  have ss: "sortedServices_compare toNumber cfg (Str (a # s)) (Str (b # t)) =
       sortedEvents_compare toNumber cfg (Str (toLowerCase (a # s))) (Str (toLowerCase (b # t)))"
    by (simp add: sortedServices_compare_def sortedEvents_compare_def Let_def)
  have rs: "requestSort (Some \<lparr>key = k, direction = d\<rparr>) k =
       Some \<lparr>key = k, direction = (if d = asc then desc else asc)\<rparr>"
    by (cases d) (simp_all add: requestSort_def Let_def)
  from ev sv en sn ss rs show ?thesis by blast
qed

end
